theory Spec2Isabelle
  imports Complex_Main
begin

section \<open>Data model of the \<open>useLive2D\<close> hook\<close>

text \<open>
  The development embeds the hook \<open>useLive2D\<close> (file \<open>use-live2d.ts\<close>), the catalog
  \<open>live2d-config.ts\<close> and, for comparison, the older monolithic component of
  \<open>src/app/page.tsx\<close>.

  JavaScript numbers are idealised as exact reals; strings are character lists; the
  type \<open>ModelName\<close> is a union of string literals and is erased at run time, so a model
  name is a string.
\<close>

type_synonym ModelName = string

definition MODEL_NAMES :: "ModelName list" where
  "MODEL_NAMES = [''Haru'', ''Hiyori'', ''Mao'', ''Mark'', ''Natori'', ''Ren'', ''Rice'', ''Wanko'']"

definition getModelPath :: "ModelName \<Rightarrow> string" where
  "getModelPath name = ''/live2d/'' @ name @ ''/'' @ name @ ''.model3.json''"

definition DEFAULT_MODEL :: ModelName where
  "DEFAULT_MODEL = ''Haru''"

text \<open>\<open>MotionEntry\<close>: the exported interface, field for field.\<close>

record MotionEntry =
  group :: string
  name :: string
  index :: nat

text \<open>
  One element of \<open>Live2DSettings.expressions\<close>, of type \<open>{ Name?: string; name?: string }\<close>.
  An optional field is an option; the lower-case field is called \<open>name_lc\<close> here because
  \<open>name\<close> is the field of \<open>MotionEntry\<close>.
\<close>

record ExpressionDef =
  Name :: "string option"
  name_lc :: "string option"

text \<open>
  \<open>Live2DSettings\<close>. The motions object \<open>Record<string, unknown[]>\<close> is the list of its
  own enumerable entries in the order in which \<open>Object.entries\<close> returns them; the items
  are opaque values.
\<close>

type_synonym unknown = string

record Live2DSettings =
  expressions :: "ExpressionDef list option"
  motions :: "(string \<times> unknown list) list option"

record InternalModel =
  settings :: "Live2DSettings option"

text \<open>
  \<open>Live2DModelHandle\<close>, the narrow interface of the hook: \<open>width\<close>, \<open>height\<close>, \<open>x\<close>, \<open>y\<close> are the
  declared number fields (\<open>x\<close> and \<open>y\<close> are called \<open>pos_x\<close> and \<open>pos_y\<close>), \<open>scale\<close> holds the
  argument of the last \<open>scale.set\<close>, and \<open>hid\<close> stands for the identity of the object.
\<close>

record Live2DModelHandle =
  hid :: nat
  width :: real
  height :: real
  pos_x :: real
  pos_y :: real
  scale :: real
  internalModel :: "InternalModel option"

section \<open>Capability extraction (lines 152--169 of the hook)\<close>

text \<open>JavaScript truthiness of a value of type \<open>string | undefined\<close>.\<close>

definition truthy :: "string option \<Rightarrow> bool" where
  "truthy v = (case v of None \<Rightarrow> False | Some s \<Rightarrow> s \<noteq> [])"

text \<open>\<open>e.Name || e.name\<close>.\<close>

definition pick_name :: "ExpressionDef \<Rightarrow> string option" where
  "pick_name e = (if truthy (Name e) then Name e else name_lc e)"

text \<open>\<open>.filter((n): n is string => Boolean(n))\<close> on one element.\<close>

definition keep_truthy :: "string option \<Rightarrow> string option" where
  "keep_truthy v = (if truthy v then v else None)"

text \<open>\<open>model.internalModel?.settings\<close>.\<close>

definition settings_of :: "Live2DModelHandle \<Rightarrow> Live2DSettings option" where
  "settings_of model =
     (case internalModel model of None \<Rightarrow> None | Some im \<Rightarrow> settings im)"

text \<open>\<open>settings?.expressions ?? []\<close>.\<close>

definition expression_defs :: "Live2DSettings option \<Rightarrow> ExpressionDef list" where
  "expression_defs st =
     (case st of None \<Rightarrow> []
      | Some s \<Rightarrow> (case expressions s of None \<Rightarrow> [] | Some es \<Rightarrow> es))"

definition extractExpressions :: "Live2DSettings option \<Rightarrow> string list" where
  "extractExpressions st = List.map_filter keep_truthy (map pick_name (expression_defs st))"

text \<open>The decimal numeral of a number, as the template literal prints \<open>index + 1\<close>.\<close>

definition digit_char :: "nat \<Rightarrow> char" where
  "digit_char d = ''0123456789'' ! d"

function string_of_nat :: "nat \<Rightarrow> string" where
  "string_of_nat n =
     (if n < 10 then [digit_char n]
      else string_of_nat (n div 10) @ [digit_char (n mod 10)])"
  by pat_completeness auto
termination
  by (relation "measure (\<lambda>n. n)") auto

declare string_of_nat.simps [simp del]

text \<open>The body of \<open>items.forEach((_, index) => entries.push(...))\<close> for one group.\<close>

definition motion_entry :: "string \<Rightarrow> nat \<Rightarrow> MotionEntry" where
  "motion_entry g i =
     \<lparr>group = g, name = g @ '' #'' @ string_of_nat (i + 1), index = i\<rparr>"

definition group_entries :: "string \<times> unknown list \<Rightarrow> MotionEntry list" where
  "group_entries gi = map (motion_entry (fst gi)) [0..<length (snd gi)]"

text \<open>\<open>if (settings?.motions) for (const [group, items] of Object.entries(...))\<close>.\<close>

definition extractMotions :: "Live2DSettings option \<Rightarrow> MotionEntry list" where
  "extractMotions st =
     (case st of None \<Rightarrow> []
      | Some s \<Rightarrow> (case motions s of None \<Rightarrow> [] | Some ms \<Rightarrow> concat (map group_entries ms)))"

section \<open>The objects the hook touches\<close>

text \<open>
  \<open>PixiApp\<close>, the narrow interface of the application: the screen size, the children of
  \<open>app.stage\<close> (the attached handles, by identity, in order) and the number of
  \<open>app.destroy(true)\<close> calls the object has received.
\<close>

record PixiApp =
  screen_width :: real
  screen_height :: real
  stage :: "nat list"
  destroy_calls :: nat

definition removeChild :: "nat \<Rightarrow> PixiApp \<Rightarrow> PixiApp" where
  "removeChild c a = a\<lparr>stage := remove1 c (stage a)\<rparr>"

definition addChild :: "nat \<Rightarrow> PixiApp \<Rightarrow> PixiApp" where
  "addChild c a = a\<lparr>stage := stage a @ [c]\<rparr>"

definition destroy_app :: "PixiApp \<Rightarrow> PixiApp" where
  "destroy_app a = a\<lparr>destroy_calls := Suc (destroy_calls a)\<rparr>"

record MouseEvent =
  clientX :: real
  clientY :: real

text \<open>The result of \<open>container.getBoundingClientRect()\<close>: its \<open>left\<close> and \<open>top\<close>.\<close>

record DOMRect =
  rect_left :: real
  rect_top :: real

text \<open>
  One invocation of the asynchronous function \<open>loadLive2DModel\<close> that is suspended at
  one of its two \<open>await\<close>s. \<open>token\<close> identifies its \<open>AbortSignal\<close> and \<open>aborted\<close> is
  \<open>signal.aborted\<close>.
\<close>

datatype Phase = AwaitModule | AwaitModel

record LoadRun =
  token :: nat
  run_model :: ModelName
  phase :: Phase
  aborted :: bool

text \<open>
  The state of one mounted hook. The application object lives in \<open>app_obj\<close> once
  \<open>createPixiApp\<close> has produced it; \<open>pixiAppRef\<close> says whether \<open>pixiAppRef.current\<close> refers to
  it (the \<open>app\<close> argument of every load run refers to the same object). \<open>destroyed\<close>,
  \<open>focus_calls\<close> and \<open>tap_calls\<close> log the calls of \<open>destroy\<close>, \<open>focus\<close> and \<open>tap\<close> on handles.
  \<open>raf_pending\<close> holds the callbacks scheduled with \<open>requestAnimationFrame\<close> and not yet
  run or cancelled, each with the handle and the event its closure captured.
  \<open>load_abort\<close> is the controller of the last run of the load effect that passed its
  guard, \<open>init_aborted\<close> the signal of the initialisation effect.
\<close>

record HookState =
  app_obj :: "PixiApp option"
  destroyed :: "nat list"
  focus_calls :: "(nat \<times> real \<times> real) list"
  tap_calls :: "(nat \<times> real \<times> real) list"
  raf_pending :: "(nat \<times> Live2DModelHandle \<times> MouseEvent) list"
  raf_next :: nat
  pixiAppRef :: bool
  live2dModelRef :: "Live2DModelHandle option"
  rafIdRef :: nat
  selectedModel :: ModelName
  appReady :: bool
  isLoading :: bool
  error :: "string option"
  expressions_state :: "string list"
  motions_state :: "MotionEntry list"
  mounted :: bool
  listeners :: bool
  init_pending :: bool
  init_aborted :: bool
  load_abort :: "nat option"
  runs :: "LoadRun list"
  next_token :: nat

text \<open>The state right after mounting: the three effects have run once.\<close>

definition initial :: HookState where
  "initial =
     \<lparr>app_obj = None, destroyed = [], focus_calls = [], tap_calls = [],
      raf_pending = [], raf_next = 1, pixiAppRef = False, live2dModelRef = None,
      rafIdRef = 0, selectedModel = DEFAULT_MODEL, appReady = False, isLoading = True,
      error = None, expressions_state = [], motions_state = [], mounted = True,
      listeners = True, init_pending = True, init_aborted = False, load_abort = None,
      runs = [], next_token = 0\<rparr>"

text \<open>The handles attached to the rendering surface: the children of \<open>app.stage\<close>.\<close>

definition attached :: "HookState \<Rightarrow> nat list" where
  "attached s = (case app_obj s of None \<Rightarrow> [] | Some a \<Rightarrow> stage a)"

text \<open>What the hook returns to the presentation components.\<close>

definition session_state ::
  "HookState \<Rightarrow> ModelName \<times> bool \<times> string option \<times> string list \<times> MotionEntry list" where
  "session_state s =
     (selectedModel s, isLoading s, error s, expressions_state s, motions_state s)"

definition find_run :: "nat \<Rightarrow> HookState \<Rightarrow> LoadRun option" where
  "find_run tok s = find (\<lambda>r. token r = tok) (runs s)"

definition remove_run :: "nat \<Rightarrow> HookState \<Rightarrow> HookState" where
  "remove_run tok s = s\<lparr>runs := filter (\<lambda>r. token r \<noteq> tok) (runs s)\<rparr>"

section \<open>\<open>loadLive2DModel\<close>\<close>

text \<open>
  Lines 142--147, ``Scale \<open>&\<close> center'': the scale is set first, then \<open>x\<close> and \<open>y\<close> are
  computed from what \<open>model.width\<close> and \<open>model.height\<close> then hold. \<open>model.scale.set\<close> is a
  method of the loader's object; its effect on the handle is the parameter \<open>set_scale\<close>.
\<close>

definition scale_and_center_with ::
  "(real \<Rightarrow> Live2DModelHandle \<Rightarrow> Live2DModelHandle) \<Rightarrow> PixiApp \<Rightarrow> Live2DModelHandle
     \<Rightarrow> Live2DModelHandle" where
  "scale_and_center_with set_scale app model =
     (let scaleX = screen_width app / width model;
          scaleY = screen_height app / height model;
          m1 = set_scale (min scaleX scaleY * 0.8) model;
          m2 = m1\<lparr>pos_x := (screen_width app - width m1) / 2\<rparr>
      in m2\<lparr>pos_y := (screen_height app - height m2) / 2\<rparr>)"

text \<open>
  The setter as the interface of the hook describes the handle: \<open>width\<close> and \<open>height\<close> are
  number fields of their own, and setting the scale stores the scale.
\<close>

definition scale_set :: "real \<Rightarrow> Live2DModelHandle \<Rightarrow> Live2DModelHandle" where
  "scale_set s model = model\<lparr>scale := s\<rparr>"

definition scale_and_center :: "PixiApp \<Rightarrow> Live2DModelHandle \<Rightarrow> Live2DModelHandle" where
  "scale_and_center app model = scale_and_center_with scale_set app model"

text \<open>
  A setter under which the size of the handle follows its scale, the handle being a
  display object whose width and height are its unscaled size times its scale.
\<close>

definition scale_set_resizing :: "real \<Rightarrow> Live2DModelHandle \<Rightarrow> Live2DModelHandle" where
  "scale_set_resizing s model =
     model\<lparr>scale := s, width := width model / scale model * s,
           height := height model / scale model * s\<rparr>"

text \<open>The same step in \<open>loadModel\<close> of \<open>src/app/page.tsx\<close> (lines 84--89).\<close>

definition page_scale_and_center_with ::
  "(real \<Rightarrow> Live2DModelHandle \<Rightarrow> Live2DModelHandle) \<Rightarrow> PixiApp \<Rightarrow> Live2DModelHandle
     \<Rightarrow> Live2DModelHandle" where
  "page_scale_and_center_with set_scale app model =
     (let scaleX = screen_width app / width model;
          scaleY = screen_height app / height model;
          sc = min scaleX scaleY * 0.8;
          m1 = set_scale sc model;
          m2 = m1\<lparr>pos_x := (screen_width app - width m1 * sc) / 2\<rparr>
      in m2\<lparr>pos_y := (screen_height app - height m2 * sc) / 2\<rparr>)"

definition page_scale_and_center :: "PixiApp \<Rightarrow> Live2DModelHandle \<Rightarrow> Live2DModelHandle" where
  "page_scale_and_center app model = page_scale_and_center_with scale_set app model"

text \<open>The message of line 176.\<close>

definition load_error_message :: "ModelName \<Rightarrow> string" where
  "load_error_message modelName =
     ''Failed to load \"'' @ modelName @ ''\". The model may require a newer Cubism SDK version.''"

text \<open>
  Lines 173--179: the \<open>catch\<close> block of a run whose signal is not aborted, followed by
  \<open>setIsLoading(false)\<close>.
\<close>

definition catch_block :: "ModelName \<Rightarrow> HookState \<Rightarrow> HookState" where
  "catch_block modelName s =
     s\<lparr>expressions_state := [], motions_state := [],
       error := Some (load_error_message modelName), isLoading := False\<rparr>"

text \<open>
  Lines 119--130: the synchronous part of a run up to its first \<open>await\<close>. The previous
  handle, if any, is removed from the stage and destroyed, and the reference is cleared.
\<close>

definition tear_down_previous :: "HookState \<Rightarrow> HookState" where
  "tear_down_previous s =
     (case live2dModelRef s of
        None \<Rightarrow> s
      | Some m \<Rightarrow>
          s\<lparr>app_obj := map_option (removeChild (hid m)) (app_obj s),
            destroyed := destroyed s @ [hid m],
            live2dModelRef := None\<rparr>)"

definition loadLive2DModel :: "ModelName \<Rightarrow> nat \<Rightarrow> HookState \<Rightarrow> HookState" where
  "loadLive2DModel modelName tok s =
     (let s1 = tear_down_previous (s\<lparr>isLoading := True, error := None\<rparr>)
      in s1\<lparr>runs :=
              runs s1 @ [\<lparr>token = tok, run_model = modelName, phase = AwaitModule, aborted = False\<rparr>]\<rparr>)"

text \<open>
  Lines 130--136: the run resumes from \<open>await getLive2DModule()\<close>. \<open>ok\<close> says whether the
  import was fulfilled; a rejection is caught at line 170.
\<close>

definition loadLive2DModel_afterModule :: "nat \<Rightarrow> bool \<Rightarrow> HookState \<Rightarrow> HookState" where
  "loadLive2DModel_afterModule tok ok s =
     (case find_run tok s of
        None \<Rightarrow> s
      | Some r \<Rightarrow>
          if phase r \<noteq> AwaitModule then s
          else if aborted r then remove_run tok s
          else if ok then
            s\<lparr>runs := map (\<lambda>q. if token q = tok then q\<lparr>phase := AwaitModel\<rparr> else q) (runs s)\<rparr>
          else catch_block (run_model r) (remove_run tok s))"

text \<open>
  \<open>attach_model\<close> is lines 142--169 and 179. A run is only ever started with the
  application object at hand (the guard of line 218), so the case without one does not
  occur; it leaves the state as it is.
\<close>

definition attach_model :: "Live2DModelHandle \<Rightarrow> HookState \<Rightarrow> HookState" where
  "attach_model model s =
     (case app_obj s of
        None \<Rightarrow> s
      | Some app \<Rightarrow>
          (let m = scale_and_center app model
           in s\<lparr>app_obj := Some (addChild (hid m) app),
                live2dModelRef := Some m,
                expressions_state := extractExpressions (settings_of m),
                motions_state := extractMotions (settings_of m),
                isLoading := False\<rparr>))"

text \<open>
  Lines 133--179: the run resumes from \<open>await Live2DModel.from(...)\<close> with a handle, or
  with a rejection (\<open>None\<close>).
\<close>

definition loadLive2DModel_afterModel ::
  "nat \<Rightarrow> Live2DModelHandle option \<Rightarrow> HookState \<Rightarrow> HookState" where
  "loadLive2DModel_afterModel tok res s =
     (case find_run tok s of
        None \<Rightarrow> s
      | Some r \<Rightarrow>
          if phase r \<noteq> AwaitModel then s
          else
            (case res of
               Some model \<Rightarrow>
                 if aborted r then (remove_run tok s)\<lparr>destroyed := destroyed s @ [hid model]\<rparr>
                 else attach_model model (remove_run tok s)
             | None \<Rightarrow>
                 if aborted r then remove_run tok s
                 else catch_block (run_model r) (remove_run tok s)))"

section \<open>The effects and the event handlers\<close>

text \<open>
  The cleanup of the load effect (line 222) aborts the controller of the effect run it
  belongs to. \<open>AbortController.abort\<close> may be called any number of times.
\<close>

definition load_cleanup :: "HookState \<Rightarrow> HookState" where
  "load_cleanup s =
     (case load_abort s of
        None \<Rightarrow> s
      | Some t \<Rightarrow> s\<lparr>runs := map (\<lambda>r. if token r = t then r\<lparr>aborted := True\<rparr> else r) (runs s)\<rparr>)"

text \<open>
  The load effect (lines 217--223) re-runs when one of \<open>appReady\<close>, \<open>selectedModel\<close> changes:
  the cleanup of its previous run first, then its body.
\<close>

definition load_effect :: "HookState \<Rightarrow> HookState" where
  "load_effect s =
     (let s1 = load_cleanup s in
      if \<not> appReady s1 \<or> \<not> pixiAppRef s1 then s1\<lparr>load_abort := None\<rparr>
      else
        (let tok = next_token s1
         in loadLive2DModel (selectedModel s1) tok
              (s1\<lparr>load_abort := Some tok, next_token := Suc tok\<rparr>)))"

text \<open>
  \<open>setSelectedModel\<close> is the setter of \<open>useState\<close>: setting the value the state already has
  changes no dependency of the load effect, which then does not run again; an unmounted
  component takes no state update.
\<close>

definition setSelectedModel :: "ModelName \<Rightarrow> HookState \<Rightarrow> HookState" where
  "setSelectedModel nm s =
     (if \<not> mounted s \<or> nm = selectedModel s then s
      else load_effect (s\<lparr>selectedModel := nm\<rparr>))"

text \<open>
  Lines 192--206: \<open>createPixiApp\<close> settles. A new application has the size of its container
  and an empty stage.
\<close>

definition init_resolved :: "real \<Rightarrow> real \<Rightarrow> HookState \<Rightarrow> HookState" where
  "init_resolved w h s =
     (let app = \<lparr>screen_width = w, screen_height = h, stage = [], destroy_calls = 0\<rparr> in
      if \<not> init_pending s then s
      else if init_aborted s then
        s\<lparr>init_pending := False, app_obj := Some (destroy_app app)\<rparr>
      else
        load_effect (s\<lparr>init_pending := False, app_obj := Some app, pixiAppRef := True,
                       appReady := True\<rparr>))"

definition init_rejected :: "HookState \<Rightarrow> HookState" where
  "init_rejected s =
     (if \<not> init_pending s then s
      else if init_aborted s then s\<lparr>init_pending := False\<rparr>
      else s\<lparr>init_pending := False,
             error := Some ''Failed to initialize rendering engine.'', isLoading := False\<rparr>)"

text \<open>Lines 208--212: the cleanup of the initialisation effect.\<close>

definition init_cleanup :: "HookState \<Rightarrow> HookState" where
  "init_cleanup s =
     (let s1 = s\<lparr>init_aborted := True\<rparr> in
      if pixiAppRef s1
      then s1\<lparr>app_obj := map_option destroy_app (app_obj s1), pixiAppRef := False\<rparr>
      else s1)"

text \<open>\<open>cancelAnimationFrame(id)\<close>.\<close>

definition cancelAnimationFrame :: "nat \<Rightarrow> HookState \<Rightarrow> HookState" where
  "cancelAnimationFrame i s = s\<lparr>raf_pending := filter (\<lambda>c. fst c \<noteq> i) (raf_pending s)\<rparr>"

text \<open>Lines 250--254: the cleanup of the pointer effect.\<close>

definition mouse_cleanup :: "HookState \<Rightarrow> HookState" where
  "mouse_cleanup s = (cancelAnimationFrame (rafIdRef s) s)\<lparr>listeners := False\<rparr>"

text \<open>Unmounting runs the cleanups of the three effects in the order of the effects.\<close>

definition teardown :: "HookState \<Rightarrow> HookState" where
  "teardown s = (mouse_cleanup (load_cleanup (init_cleanup s)))\<lparr>mounted := False\<rparr>"

text \<open>Lines 231--239.\<close>

definition handleMouseMove :: "MouseEvent \<Rightarrow> HookState \<Rightarrow> HookState" where
  "handleMouseMove e s =
     (if \<not> listeners s then s
      else
        (case live2dModelRef s of
           None \<Rightarrow> s
         | Some model \<Rightarrow>
             (let s1 = cancelAnimationFrame (rafIdRef s) s; i = raf_next s1
              in s1\<lparr>raf_pending := raf_pending s1 @ [(i, model, e)],
                    raf_next := Suc i, rafIdRef := i\<rparr>)))"

text \<open>Lines 241--246.\<close>

definition handleClick :: "MouseEvent \<Rightarrow> DOMRect \<Rightarrow> HookState \<Rightarrow> HookState" where
  "handleClick e rect s =
     (if \<not> listeners s then s
      else
        (case live2dModelRef s of
           None \<Rightarrow> s
         | Some model \<Rightarrow>
             s\<lparr>tap_calls := tap_calls s @
                  [(hid model, clientX e - rect_left rect, clientY e - rect_top rect)]\<rparr>))"

text \<open>
  The frame boundary: the browser runs the scheduled callbacks, in the order of their
  scheduling. Each one is the closure of lines 235--238; the rectangle is read when it
  runs.
\<close>

definition frame_callback :: "DOMRect \<Rightarrow> nat \<times> Live2DModelHandle \<times> MouseEvent \<Rightarrow> nat \<times> real \<times> real" where
  "frame_callback rect c =
     (hid (fst (snd c)), clientX (snd (snd c)) - rect_left rect,
      clientY (snd (snd c)) - rect_top rect)"

definition animation_frame :: "DOMRect \<Rightarrow> HookState \<Rightarrow> HookState" where
  "animation_frame rect s =
     s\<lparr>focus_calls := focus_calls s @ map (frame_callback rect) (raf_pending s),
       raf_pending := []\<rparr>"

section \<open>Runs of the hook\<close>

datatype Event =
    InitResolved real real
  | InitRejected
  | SetSelectedModel ModelName
  | ModuleResolved nat bool
  | ModelResolved nat "Live2DModelHandle option"
  | MouseMove MouseEvent
  | Click MouseEvent DOMRect
  | AnimationFrame DOMRect
  | Unmount

fun step :: "Event \<Rightarrow> HookState \<Rightarrow> HookState" where
  "step (InitResolved w h) s = init_resolved w h s"
| "step InitRejected s = init_rejected s"
| "step (SetSelectedModel nm) s = setSelectedModel nm s"
| "step (ModuleResolved tok ok) s = loadLive2DModel_afterModule tok ok s"
| "step (ModelResolved tok res) s = loadLive2DModel_afterModel tok res s"
| "step (MouseMove e) s = handleMouseMove e s"
| "step (Click e rect) s = handleClick e rect s"
| "step (AnimationFrame rect) s = animation_frame rect s"
| "step Unmount s = teardown s"

definition exec_from :: "HookState \<Rightarrow> Event list \<Rightarrow> HookState" where
  "exec_from s es = foldl (\<lambda>s e. step e s) s es"

definition exec :: "Event list \<Rightarrow> HookState" where
  "exec es = exec_from initial es"


text \<open>How often the rendering surface has been destroyed.\<close>

definition surface_destroys :: "HookState \<Rightarrow> nat" where
  "surface_destroys s = (case app_obj s of None \<Rightarrow> 0 | Some a \<Rightarrow> destroy_calls a)"

section \<open>Invariants of the runs\<close>

text \<open>
  A pending run whose signal is not aborted is the run of the current load effect; while
  it is pending no handle is referenced, and the component is mounted with its surface.
\<close>

definition inv_runs :: "HookState \<Rightarrow> bool" where
  "inv_runs s \<longleftrightarrow>
     (\<forall>r \<in> set (runs s). \<not> aborted r \<longrightarrow>
        load_abort s = Some (token r) \<and> live2dModelRef s = None \<and>
        mounted s \<and> appReady s \<and> pixiAppRef s)"

definition inv_tokens :: "HookState \<Rightarrow> bool" where
  "inv_tokens s \<longleftrightarrow>
     distinct (map token (runs s)) \<and> (\<forall>r \<in> set (runs s). token r < next_token s)"

text \<open>The stage holds exactly the referenced handle.\<close>

definition inv_stage :: "HookState \<Rightarrow> bool" where
  "inv_stage s \<longleftrightarrow>
     attached s = (case live2dModelRef s of None \<Rightarrow> [] | Some m \<Rightarrow> [hid m])"

definition inv_app :: "HookState \<Rightarrow> bool" where
  "inv_app s \<longleftrightarrow>
     (case app_obj s of
        None \<Rightarrow> \<not> pixiAppRef s
      | Some a \<Rightarrow>
          \<not> init_pending s \<and> destroy_calls a \<le> 1 \<and> (pixiAppRef s \<longrightarrow> destroy_calls a = 0))"

text \<open>At most one frame callback is scheduled, and it is the one \<open>rafIdRef\<close> names.\<close>

definition inv_raf :: "HookState \<Rightarrow> bool" where
  "inv_raf s \<longleftrightarrow>
     (\<forall>c \<in> set (raf_pending s). fst c = rafIdRef s) \<and> length (raf_pending s) \<le> 1
     \<and> rafIdRef s < raf_next s"

definition inv_life :: "HookState \<Rightarrow> bool" where
  "inv_life s \<longleftrightarrow> mounted s \<or> init_aborted s"

definition inv :: "HookState \<Rightarrow> bool" where
  "inv s \<longleftrightarrow> inv_runs s \<and> inv_tokens s \<and> inv_stage s \<and> inv_app s \<and> inv_raf s \<and> inv_life s"

section \<open>Example data\<close>

text \<open>An 800 by 600 surface and a handle of 400 by 800.\<close>

definition example_app :: PixiApp where
  "example_app = \<lparr>screen_width = 800, screen_height = 600, stage = [], destroy_calls = 0\<rparr>"

definition example_handle :: Live2DModelHandle where
  "example_handle =
     \<lparr>hid = 1, width = 400, height = 800, pos_x = 0, pos_y = 0, scale = 1,
      internalModel = None\<rparr>"

text \<open>The default model has been loaded into an 800 by 600 surface.\<close>

definition settled_trace :: "Event list" where
  "settled_trace =
     [InitResolved 800 600, ModuleResolved 0 True, ModelResolved 0 (Some example_handle)]"

text \<open>A selection of another model while the first load waits for its handle.\<close>

definition superseded_trace :: "Event list" where
  "superseded_trace = [InitResolved 800 600, ModuleResolved 0 True, SetSelectedModel ''Mao'']"






section \<open>Preservation of the invariants\<close>

lemmas inv_defs =
  inv_def inv_runs_def inv_tokens_def inv_stage_def inv_app_def inv_raf_def inv_life_def
  attached_def

lemma inv_initial: "inv initial"
  by (simp add: inv_defs initial_def)

lemmas scale_defs =
  scale_and_center_def scale_and_center_with_def page_scale_and_center_def
  page_scale_and_center_with_def scale_set_def Let_def

lemma hid_scale_and_center [simp]: "hid (scale_and_center app m) = hid m"
  by (simp add: scale_defs)

lemma find_run_Some: "find_run tok s = Some r \<Longrightarrow> r \<in> set (runs s) \<and> token r = tok"
  by (auto simp: find_run_def find_Some_iff)

lemma inv_catch_block: "inv s \<Longrightarrow> inv (catch_block nm s)"
  by (simp add: inv_defs catch_block_def split: option.splits)

lemma inv_remove_run: "inv s \<Longrightarrow> inv (remove_run tok s)"
  by (auto simp: inv_defs remove_run_def distinct_map_filter split: option.splits)

lemma token_set_phase [simp]:
  "token \<circ> (\<lambda>q. if P q then q\<lparr>phase := p\<rparr> else q) = token"
  by (auto simp: fun_eq_iff)

lemma token_set_aborted [simp]:
  "token \<circ> (\<lambda>q. if P q then q\<lparr>aborted := b\<rparr> else q) = token"
  by (auto simp: fun_eq_iff)

lemma inv_afterModule: "inv s \<Longrightarrow> inv (loadLive2DModel_afterModule tok ok s)"
  unfolding loadLive2DModel_afterModule_def
  apply (auto split: option.splits simp: inv_catch_block inv_remove_run)
  apply (auto simp: inv_defs dest!: find_run_Some split: option.splits)
  done

lemma inv_attach_model:
  assumes "inv s" "live2dModelRef s = None" "\<forall>r \<in> set (runs s). aborted r"
  shows "inv (attach_model m s)"
  using assms
  by (auto simp: inv_defs attach_model_def addChild_def Let_def split: option.splits)

lemma inv_destroyed_upd: "inv s \<Longrightarrow> inv (s\<lparr>destroyed := d\<rparr>)"
  by (simp add: inv_defs split: option.splits)

lemma remove_run_fields [simp]:
  "live2dModelRef (remove_run tok s) = live2dModelRef s"
  "load_abort (remove_run tok s) = load_abort s"
  "runs (remove_run tok s) = filter (\<lambda>r. token r \<noteq> tok) (runs s)"
  by (simp_all add: remove_run_def)

text \<open>At most one pending run has a signal that is not aborted.\<close>

lemma current_run_alone:
  assumes "inv s" "r \<in> set (runs s)" "\<not> aborted r" "q \<in> set (runs s)" "token q \<noteq> token r"
  shows "aborted q"
proof (rule ccontr)
  assume "\<not> aborted q"
  have "\<forall>r \<in> set (runs s). \<not> aborted r \<longrightarrow> load_abort s = Some (token r)"
    using assms(1) by (simp add: inv_def inv_runs_def)
  with assms \<open>\<not> aborted q\<close>
  have "load_abort s = Some (token q)" "load_abort s = Some (token r)"
    by blast+
  with assms(5) show False by simp
qed

lemma inv_afterModel: "inv s \<Longrightarrow> inv (loadLive2DModel_afterModel tok res s)"
proof -
  assume i: "inv s"
  show ?thesis
  proof (cases "find_run tok s")
    case None
    then show ?thesis using i by (simp add: loadLive2DModel_afterModel_def)
  next
    case (Some r)
    then have r: "r \<in> set (runs s)" "token r = tok" using find_run_Some by auto
    have ref: "\<not> aborted r \<Longrightarrow> live2dModelRef s = None"
      using i r by (auto simp: inv_def inv_runs_def)
    have others: "\<not> aborted r \<Longrightarrow> \<forall>q \<in> set (runs (remove_run tok s)). aborted q"
      using current_run_alone [OF i r(1)] r(2) by auto
    have att: "\<not> aborted r \<Longrightarrow> inv (attach_model m (remove_run tok s))" for m
      using inv_attach_model [OF inv_remove_run [OF i]] ref others by simp
    show ?thesis
      using i Some att
      by (auto simp: loadLive2DModel_afterModel_def inv_remove_run
          inv_catch_block inv_destroyed_upd split: option.splits)
  qed
qed

lemma inv_load_cleanup: "inv s \<Longrightarrow> inv (load_cleanup s)"
  by (auto simp: inv_defs load_cleanup_def split: option.splits)

lemma load_cleanup_all_aborted:
  "inv s \<Longrightarrow> r \<in> set (runs (load_cleanup s)) \<Longrightarrow> aborted r"
  by (auto simp: inv_def inv_runs_def load_cleanup_def split: option.splits if_splits)

lemma inv_tear_down_previous: "inv s \<Longrightarrow> inv (tear_down_previous s)"
  by (auto simp: inv_defs tear_down_previous_def removeChild_def split: option.splits)

lemma tear_down_previous_fields [simp]:
  "runs (tear_down_previous s) = runs s"
  "live2dModelRef (tear_down_previous s) = None"
  "next_token (tear_down_previous s) = next_token s"
  "load_abort (tear_down_previous s) = load_abort s"
  "mounted (tear_down_previous s) = mounted s"
  "appReady (tear_down_previous s) = appReady s"
  "pixiAppRef (tear_down_previous s) = pixiAppRef s"
  by (simp_all add: tear_down_previous_def split: option.splits)

lemma load_cleanup_fields [simp]:
  "mounted (load_cleanup s) = mounted s"
  "appReady (load_cleanup s) = appReady s"
  "pixiAppRef (load_cleanup s) = pixiAppRef s"
  "next_token (load_cleanup s) = next_token s"
  "selectedModel (load_cleanup s) = selectedModel s"
  "live2dModelRef (load_cleanup s) = live2dModelRef s"
  "app_obj (load_cleanup s) = app_obj s"
  by (simp_all add: load_cleanup_def split: option.splits)

lemma inv_set_load_abort:
  assumes "inv c" "\<forall>r \<in> set (runs c). aborted r"
  shows "inv (c\<lparr>load_abort := x\<rparr>)"
  using assms by (simp add: inv_defs split: option.splits)

lemma inv_start_run:
  assumes "inv c" "\<forall>r \<in> set (runs c). aborted r" "mounted c" "appReady c" "pixiAppRef c"
  shows "inv (loadLive2DModel nm (next_token c)
                (c\<lparr>load_abort := Some (next_token c), next_token := Suc (next_token c)\<rparr>))"
proof -
  let ?c1 = "c\<lparr>load_abort := Some (next_token c), next_token := Suc (next_token c),
               isLoading := True, error := None\<rparr>"
  have "inv ?c1"
    using assms(1,2) by (auto simp: inv_defs split: option.splits)
  then have i2: "inv (tear_down_previous ?c1)"
    by (rule inv_tear_down_previous)
  have ab: "\<forall>r \<in> set (runs (tear_down_previous ?c1)). aborted r"
    using assms(2) by simp
  have f: "next_token (tear_down_previous ?c1) = Suc (next_token c)"
    "load_abort (tear_down_previous ?c1) = Some (next_token c)"
    "live2dModelRef (tear_down_previous ?c1) = None"
    "mounted (tear_down_previous ?c1)" "appReady (tear_down_previous ?c1)"
    "pixiAppRef (tear_down_previous ?c1)"
    using assms(3-5) by simp_all
  define t where "t = tear_down_previous ?c1"
  have lt: "\<forall>r \<in> set (runs t). token r < next_token c"
    using assms(1) by (simp add: inv_def inv_tokens_def t_def)
  have "inv (t\<lparr>runs := runs t @ [\<lparr>token = next_token c, run_model = nm,
                phase = AwaitModule, aborted = False\<rparr>]\<rparr>)"
    using i2 ab f lt unfolding t_def [symmetric]
    by (auto simp: inv_defs split: option.splits)
  then show ?thesis
    by (simp add: loadLive2DModel_def Let_def t_def)
qed

lemma inv_load_effect: "inv s \<Longrightarrow> mounted s \<Longrightarrow> inv (load_effect s)"
  using inv_set_load_abort [OF inv_load_cleanup, of s None]
    inv_start_run [OF inv_load_cleanup, of s "selectedModel s"]
    load_cleanup_all_aborted [of s]
  by (auto simp: load_effect_def Let_def)

lemma inv_setSelectedModel: "inv s \<Longrightarrow> inv (setSelectedModel nm s)"
proof -
  assume i: "inv s"
  have "inv (s\<lparr>selectedModel := nm\<rparr>)"
    using i by (simp add: inv_defs split: option.splits)
  then show ?thesis
    using i inv_load_effect [of "s\<lparr>selectedModel := nm\<rparr>"]
    by (simp add: setSelectedModel_def)
qed

lemma inv_init_resolved:
  assumes "inv s"
  shows "inv (init_resolved w h s)"
proof -
  let ?app = "\<lparr>screen_width = w, screen_height = h, stage = [], destroy_calls = 0\<rparr>"
  let ?s1 = "s\<lparr>init_pending := False, app_obj := Some ?app, pixiAppRef := True, appReady := True\<rparr>"
  have a: "init_pending s \<Longrightarrow> init_aborted s \<Longrightarrow>
      inv (s\<lparr>init_pending := False, app_obj := Some (destroy_app ?app)\<rparr>)"
    using assms by (auto simp: inv_defs destroy_app_def split: option.splits)
  have b: "init_pending s \<Longrightarrow> \<not> init_aborted s \<Longrightarrow> inv ?s1 \<and> mounted ?s1"
    using assms by (auto simp: inv_defs split: option.splits)
  show ?thesis
    using assms(1) a b inv_load_effect [of ?s1]
    by (auto simp: init_resolved_def Let_def)
qed

lemma inv_init_rejected: "inv s \<Longrightarrow> inv (init_rejected s)"
  by (auto simp: inv_defs init_rejected_def split: option.splits)

lemma inv_init_cleanup_then_load:
  assumes "inv s"
  shows "inv (load_cleanup (init_cleanup s))"
proof -
  have ab: "\<forall>r \<in> set (runs (load_cleanup s)). aborted r"
    using load_cleanup_all_aborted [OF assms] by blast
  have i: "inv (load_cleanup s)"
    using assms by (rule inv_load_cleanup)
  have c: "load_cleanup (init_cleanup s) = init_cleanup (load_cleanup s)"
    by (simp add: load_cleanup_def init_cleanup_def Let_def split: option.splits)
  have "inv (init_cleanup (load_cleanup s))"
    using i ab
    by (auto simp: inv_defs init_cleanup_def Let_def destroy_app_def split: option.splits)
  then show ?thesis by (simp add: c)
qed

lemma inv_mouse_cleanup: "inv s \<Longrightarrow> inv (mouse_cleanup s)"
  by (auto simp: inv_defs mouse_cleanup_def cancelAnimationFrame_def split: option.splits)

lemma teardown_all_aborted:
  assumes "inv s" "r \<in> set (runs (teardown s))"
  shows "aborted r"
proof -
  have "runs (teardown s) = runs (load_cleanup s)"
    by (simp add: teardown_def mouse_cleanup_def cancelAnimationFrame_def load_cleanup_def
        init_cleanup_def Let_def split: option.splits)
  then show ?thesis
    using assms load_cleanup_all_aborted by simp
qed

lemma inv_teardown: "inv s \<Longrightarrow> inv (teardown s)"
proof -
  assume i: "inv s"
  define t where "t = mouse_cleanup (load_cleanup (init_cleanup s))"
  have it: "inv t"
    unfolding t_def using i by (intro inv_mouse_cleanup inv_init_cleanup_then_load)
  have "runs t = runs (teardown s)"
    by (simp add: t_def teardown_def)
  then have ab: "\<forall>r \<in> set (runs t). aborted r"
    using teardown_all_aborted [OF i] by simp
  have "init_aborted t"
    by (simp add: t_def mouse_cleanup_def cancelAnimationFrame_def load_cleanup_def
        init_cleanup_def Let_def split: option.splits)
  then have "inv (t\<lparr>mounted := False\<rparr>)"
    using it ab by (auto simp: inv_defs split: option.splits)
  then show ?thesis
    by (simp add: teardown_def t_def)
qed

lemma inv_handleMouseMove: "inv s \<Longrightarrow> inv (handleMouseMove e s)"
  by (auto simp: inv_defs handleMouseMove_def cancelAnimationFrame_def Let_def
      split: option.splits)

lemma inv_handleClick: "inv s \<Longrightarrow> inv (handleClick e rect s)"
  by (auto simp: inv_defs handleClick_def split: option.splits)

lemma inv_animation_frame: "inv s \<Longrightarrow> inv (animation_frame rect s)"
  by (auto simp: inv_defs animation_frame_def split: option.splits)

lemma inv_step: "inv s \<Longrightarrow> inv (step e s)"
  by (cases e)
    (simp_all add: inv_init_resolved inv_init_rejected inv_setSelectedModel inv_afterModule
      inv_afterModel inv_handleMouseMove inv_handleClick inv_animation_frame inv_teardown)

lemma inv_exec_from: "inv s \<Longrightarrow> inv (exec_from s es)"
  unfolding exec_from_def by (induction es arbitrary: s) (simp_all add: inv_step)

lemma inv_exec: "inv (exec es)"
  unfolding exec_def by (rule inv_exec_from [OF inv_initial])

lemma exec_from_append: "exec_from s (es @ fs) = exec_from (exec_from s es) fs"
  by (simp add: exec_from_def)

lemma exec_snoc: "exec (es @ [e]) = step e (exec es)"
  by (simp add: exec_def exec_from_def)

section \<open>At most one attached handle\<close>

lemma attached_loadLive2DModel:
  "inv s \<Longrightarrow> attached (loadLive2DModel nm tok s) = [] \<and>
     destroyed (loadLive2DModel nm tok s) = destroyed s @ attached s"
  by (auto simp: inv_def inv_stage_def attached_def loadLive2DModel_def Let_def
      tear_down_previous_def removeChild_def split: option.splits)

text \<open>
  Claim C1. After every sequence of events of a session (selections, settlements of the
  loads in any order, pointer events, unmounting) at most one handle is attached to the
  rendering surface, and it is the handle the hook references. The reason is the start of
  a load: it leaves the stage empty and destroys the handle that was attached.
\<close>

theorem at_most_one_handle_attached:
  "length (attached (exec es)) \<le> 1
   \<and> attached (exec es) = (case live2dModelRef (exec es) of None \<Rightarrow> [] | Some m \<Rightarrow> [hid m])
   \<and> attached (loadLive2DModel nm tok (exec es)) = []
   \<and> destroyed (loadLive2DModel nm tok (exec es)) = destroyed (exec es) @ attached (exec es)"
proof -
  have i: "inv (exec es)" by (rule inv_exec)
  then have st:
    "attached (exec es) = (case live2dModelRef (exec es) of None \<Rightarrow> [] | Some m \<Rightarrow> [hid m])"
    by (simp add: inv_def inv_stage_def)
  then have "length (attached (exec es)) \<le> 1"
    by (simp split: option.splits)
  with st attached_loadLive2DModel [OF i] show ?thesis by simp
qed

section \<open>Scaling and centring\<close>


text \<open>The older component multiplies by the scale and arrives at (280, 60).\<close>

lemma page_centers_with_scaled_size:
  "scale (page_scale_and_center example_app example_handle) = 3 / 5
   \<and> pos_x (page_scale_and_center example_app example_handle) = 280
   \<and> pos_y (page_scale_and_center example_app example_handle) = 60"
  by (simp add: scale_defs example_app_def example_handle_def)

lemma scale_and_center_position:
  "pos_x (scale_and_center app m) = (screen_width app - width m) / 2
   \<and> pos_y (scale_and_center app m) = (screen_height app - height m) / 2
   \<and> scale (scale_and_center app m) =
       min (screen_width app / width m) (screen_height app / height m) * 0.8"
  by (simp add: scale_defs)

text \<open>
  Were the size of the handle to follow its scale, the hook would arrive at (280, 60)
  and the older component at (328, 156).
\<close>

lemma centering_with_resizing_setter:
  "pos_x (scale_and_center_with scale_set_resizing example_app example_handle) = 280
   \<and> pos_y (scale_and_center_with scale_set_resizing example_app example_handle) = 60
   \<and> pos_x (page_scale_and_center_with scale_set_resizing example_app example_handle) = 328
   \<and> pos_y (page_scale_and_center_with scale_set_resizing example_app example_handle) = 156"
  by (simp add: scale_defs scale_set_resizing_def example_app_def example_handle_def)

section \<open>Unmounting\<close>

lemma load_cleanup_eq:
  "load_cleanup s =
     s\<lparr>runs := (case load_abort s of None \<Rightarrow> runs s
                | Some t \<Rightarrow> map (\<lambda>r. if token r = t then r\<lparr>aborted := True\<rparr> else r) (runs s))\<rparr>"
  by (simp add: load_cleanup_def split: option.splits)

lemma init_cleanup_eq:
  "init_cleanup s =
     s\<lparr>init_aborted := True,
       app_obj := (if pixiAppRef s then map_option destroy_app (app_obj s) else app_obj s),
       pixiAppRef := False\<rparr>"
  by (cases "pixiAppRef s") (simp_all add: init_cleanup_def Let_def)

lemma abort_twice:
  "map (\<lambda>r. if token r = t then r\<lparr>aborted := True\<rparr> else r)
     (map (\<lambda>r. if token r = t then r\<lparr>aborted := True\<rparr> else r) rs)
   = map (\<lambda>r. if token r = t then r\<lparr>aborted := True\<rparr> else r) rs"
  by (induction rs) auto

text \<open>The teardown as one update of the state.\<close>

lemma teardown_eq:
  "teardown s =
     s\<lparr>init_aborted := True,
       app_obj := (if pixiAppRef s then map_option destroy_app (app_obj s) else app_obj s),
       pixiAppRef := False,
       runs := (case load_abort s of None \<Rightarrow> runs s
                | Some t \<Rightarrow> map (\<lambda>r. if token r = t then r\<lparr>aborted := True\<rparr> else r) (runs s)),
       raf_pending := filter (\<lambda>c. fst c \<noteq> rafIdRef s) (raf_pending s),
       listeners := False, mounted := False\<rparr>"
  by (cases "load_abort s")
    (simp_all add: teardown_def mouse_cleanup_def cancelAnimationFrame_def load_cleanup_eq
      init_cleanup_eq)

text \<open>
  Claim C7. Tearing down twice is tearing down once: the second call changes nothing at
  all, so neither the surface nor a handle is released again. In every run, with any
  number of teardowns, the surface is destroyed at most once; a teardown destroys no
  handle.
\<close>

theorem teardown_idempotent:
  "teardown (teardown s) = teardown s
   \<and> step Unmount (step Unmount s) = step Unmount s
   \<and> surface_destroys (exec es) \<le> 1
   \<and> surface_destroys (exec (es @ [Unmount, Unmount])) = surface_destroys (exec (es @ [Unmount]))
   \<and> destroyed (teardown s) = destroyed s"
proof -
  have a: "teardown (teardown s) = teardown s" for s
    by (cases "load_abort s") (simp_all add: teardown_eq abort_twice)
  have "inv (exec es)" by (rule inv_exec)
  then have b: "surface_destroys (exec es) \<le> 1"
    by (simp add: inv_def inv_app_def surface_destroys_def split: option.splits)
  have "exec (es @ [Unmount, Unmount]) = teardown (teardown (exec es))"
    "exec (es @ [Unmount]) = teardown (exec es)"
    by (simp_all add: exec_def exec_from_def)
  then have d: "surface_destroys (exec (es @ [Unmount, Unmount]))
      = surface_destroys (exec (es @ [Unmount]))"
    using a [of "exec es"] by simp
  have c: "destroyed (teardown s) = destroyed s"
    by (simp add: teardown_eq)
  show ?thesis using a b c d by simp
qed

section \<open>Capability extraction\<close>

text \<open>
  Claim C9. A handle whose settings have neither an \<open>expressions\<close> nor a \<open>motions\<close> field
  gives two empty lists; so does a handle without settings or without an internal model.
  The extraction has no failing branch.
\<close>

theorem no_capabilities_gives_empty_lists:
  "extractExpressions (settings_of (h\<lparr>internalModel :=
       Some \<lparr>settings = Some \<lparr>expressions = None, motions = None\<rparr>\<rparr>\<rparr>)) = []
   \<and> extractMotions (settings_of (h\<lparr>internalModel :=
       Some \<lparr>settings = Some \<lparr>expressions = None, motions = None\<rparr>\<rparr>\<rparr>)) = []
   \<and> extractExpressions (settings_of (h\<lparr>internalModel := Some \<lparr>settings = None\<rparr>\<rparr>)) = []
   \<and> extractMotions (settings_of (h\<lparr>internalModel := Some \<lparr>settings = None\<rparr>\<rparr>)) = []
   \<and> extractExpressions (settings_of (h\<lparr>internalModel := None\<rparr>)) = []
   \<and> extractMotions (settings_of (h\<lparr>internalModel := None\<rparr>)) = []"
  by (simp add: extractExpressions_def extractMotions_def settings_of_def expression_defs_def
      List.map_filter_simps)

lemma map_Some_map_filter_keep:
  "map Some (List.map_filter keep_truthy vs) = filter (\<lambda>v. v \<noteq> None \<and> v \<noteq> Some []) vs"
  by (induction vs)
    (auto simp: List.map_filter_simps keep_truthy_def truthy_def split: option.splits)

lemma length_map_filter_le: "length (List.map_filter f xs) \<le> length xs"
  by (induction xs) (auto simp: List.map_filter_simps split: option.splits)

text \<open>
  Claim C10. An entry whose \<open>Name\<close> is the empty string falls back to its \<open>name\<close>. The
  extracted names are exactly the selected values that are present and not empty, in
  order, so the result is never longer than the settings' list and can be shorter: of
  three entries that all have a name field, the one whose fields are both empty is
  dropped.
\<close>

theorem expression_fallback_and_drop:
  "pick_name (e\<lparr>Name := Some []\<rparr>) = name_lc e
   \<and> map Some (extractExpressions (Some \<lparr>expressions = Some es, motions = mo\<rparr>))
       = filter (\<lambda>v. v \<noteq> None \<and> v \<noteq> Some []) (map pick_name es)
   \<and> length (extractExpressions (Some \<lparr>expressions = Some es, motions = mo\<rparr>)) \<le> length es
   \<and> extractExpressions (Some \<lparr>expressions = Some
         [\<lparr>Name = Some '''', name_lc = Some ''''\<rparr>, \<lparr>Name = Some ''F01'', name_lc = None\<rparr>,
          \<lparr>Name = Some '''', name_lc = Some ''F02''\<rparr>],
        motions = None\<rparr>) = [''F01'', ''F02'']"
  using length_map_filter_le [of keep_truthy "map pick_name es"]
  by (simp add: pick_name_def truthy_def extractExpressions_def expression_defs_def
      map_Some_map_filter_keep List.map_filter_simps keep_truthy_def)

section \<open>Concrete runs\<close>

lemmas run_defs =
  exec_def exec_from_def initial_def init_resolved_def init_rejected_def load_effect_def
  load_cleanup_def loadLive2DModel_def tear_down_previous_def loadLive2DModel_afterModule_def
  loadLive2DModel_afterModel_def attach_model_def catch_block_def setSelectedModel_def
  find_run_def remove_run_def addChild_def removeChild_def destroy_app_def DEFAULT_MODEL_def
  attached_def session_state_def Let_def

section \<open>Superseded loads\<close>

lemma find_removed [simp]: "find (\<lambda>r. token r = tok) (filter (\<lambda>r. token r \<noteq> tok) rs) = None"
  by (induction rs) auto

text \<open>
  Claim C2. When a pending run whose signal has been aborted resumes, with a handle or
  with a rejection, the state the hook returns (selected model, loading flag, error,
  expressions, motions) is what it was, and so are the stage and the referenced handle.
  A handle that arrives for such a run is destroyed and never attached. The same holds
  when the run resumes from the import of the loader module.
\<close>

theorem superseded_load_is_silent:
  assumes "find_run tok s = Some r" "aborted r"
  shows "session_state (step (ModelResolved tok res) s) = session_state s
     \<and> attached (step (ModelResolved tok res) s) = attached s
     \<and> live2dModelRef (step (ModelResolved tok res) s) = live2dModelRef s
     \<and> destroyed (step (ModelResolved tok res) s) =
         destroyed s @ (case res of None \<Rightarrow> [] | Some m \<Rightarrow> if phase r = AwaitModel then [hid m] else [])
     \<and> session_state (step (ModuleResolved tok ok) s) = session_state s
     \<and> attached (step (ModuleResolved tok ok) s) = attached s
     \<and> live2dModelRef (step (ModuleResolved tok ok) s) = live2dModelRef s
     \<and> destroyed (step (ModuleResolved tok ok) s) = destroyed s"
  using assms
  by (simp add: loadLive2DModel_afterModel_def loadLive2DModel_afterModule_def remove_run_def
      session_state_def attached_def split: option.splits)

theorem superseded_load_is_silent_witness:
  "find_run 0 (exec superseded_trace) =
      Some \<lparr>token = 0, run_model = ''Haru'', phase = AwaitModel, aborted = True\<rparr>
   \<and> session_state (step (ModelResolved 0 (Some example_handle)) (exec superseded_trace))
       = (''Mao'', True, None, [], [])
   \<and> attached (step (ModelResolved 0 (Some example_handle)) (exec superseded_trace)) = []
   \<and> live2dModelRef (step (ModelResolved 0 (Some example_handle)) (exec superseded_trace)) = None
   \<and> destroyed (step (ModelResolved 0 (Some example_handle)) (exec superseded_trace)) = [1]"
proof -
  have h: "find_run 0 (exec superseded_trace) =
      Some \<lparr>token = 0, run_model = ''Haru'', phase = AwaitModel, aborted = True\<rparr>"
    by (simp add: superseded_trace_def run_defs)
  have a: "aborted \<lparr>token = 0, run_model = ''Haru'', phase = AwaitModel, aborted = True\<rparr>"
    by simp
  have s: "session_state (exec superseded_trace) = (''Mao'', True, None, [], [])"
    "attached (exec superseded_trace) = []" "live2dModelRef (exec superseded_trace) = None"
    "destroyed (exec superseded_trace) = []"
    by (simp_all add: superseded_trace_def run_defs)
  show ?thesis
    using superseded_load_is_silent [OF h a, of "Some example_handle" True] h s
    by (simp add: example_handle_def)
qed

section \<open>Selecting a model\<close>

text \<open>
  Claim C4 says that selecting the model that is already selected runs the load again
  and yields a fresh handle. With the default model loaded, selecting it again starts no
  run: the state is unchanged, no load is pending, the attached handle is the one that
  was attached and nothing has been destroyed.
\<close>

theorem reselect_starts_no_load_counterexample:
  "selectedModel (exec settled_trace) = ''Haru''
   \<and> step (SetSelectedModel ''Haru'') (exec settled_trace) = exec settled_trace
   \<and> runs (step (SetSelectedModel ''Haru'') (exec settled_trace)) = []
   \<and> \<not> isLoading (step (SetSelectedModel ''Haru'') (exec settled_trace))
   \<and> live2dModelRef (step (SetSelectedModel ''Haru'') (exec settled_trace))
       = Some (scale_and_center example_app example_handle)
   \<and> destroyed (step (SetSelectedModel ''Haru'') (exec settled_trace)) = []"
  by (simp add: settled_trace_def run_defs example_app_def)


lemma find_snoc_fresh:
  "\<forall>r \<in> set rs. token r \<noteq> t \<Longrightarrow>
     find (\<lambda>r. token r = t) (rs @ [x]) = (if token x = t then Some x else None)"
  by (induction rs) auto

lemma runs_load_cleanup_tokens:
  "inv c \<Longrightarrow> \<forall>r \<in> set (runs (load_cleanup c)). token r \<noteq> next_token c"
  by (auto simp: inv_def inv_tokens_def load_cleanup_def split: option.splits if_splits)

lemma load_effect_starts_run:
  assumes "inv c" "appReady c" "pixiAppRef c"
  shows "find_run (next_token c) (load_effect c) =
           Some \<lparr>token = next_token c, run_model = selectedModel c, phase = AwaitModule,
                 aborted = False\<rparr>
     \<and> selectedModel (load_effect c) = selectedModel c
     \<and> isLoading (load_effect c) \<and> error (load_effect c) = None
     \<and> live2dModelRef (load_effect c) = None
     \<and> attached (load_effect c) = []
     \<and> destroyed (load_effect c) = destroyed c @ attached c"
proof -
  have fr: "\<forall>r \<in> set (runs (load_cleanup c)). token r \<noteq> next_token c"
    using assms(1) by (rule runs_load_cleanup_tokens)
  have st: "attached c = (case live2dModelRef c of None \<Rightarrow> [] | Some m \<Rightarrow> [hid m])"
    using assms(1) by (simp add: inv_def inv_stage_def)
  have a: "find_run (next_token c) (load_effect c) =
           Some \<lparr>token = next_token c, run_model = selectedModel c, phase = AwaitModule,
                 aborted = False\<rparr>"
    using assms(2,3) fr
    by (simp add: load_effect_def Let_def loadLive2DModel_def find_run_def find_snoc_fresh)
  have b: "selectedModel (load_effect c) = selectedModel c
     \<and> isLoading (load_effect c) \<and> error (load_effect c) = None
     \<and> live2dModelRef (load_effect c) = None"
    using assms(2,3)
    by (simp add: load_effect_def Let_def loadLive2DModel_def tear_down_previous_def
        split: option.splits)
  have c: "attached (load_effect c) = [] \<and> destroyed (load_effect c) = destroyed c @ attached c"
    using assms(2,3) st
    by (auto simp: load_effect_def Let_def loadLive2DModel_def tear_down_previous_def
        attached_def removeChild_def load_cleanup_def split: option.splits)
  show ?thesis using a b c by simp
qed

lemma inv_set_selectedModel: "inv s \<Longrightarrow> inv (s\<lparr>selectedModel := nm\<rparr>)"
  by (simp add: inv_defs split: option.splits)

text \<open>
  Claim C4, amended. Selecting the model that is already selected changes nothing. When
  the component is mounted with its surface ready, selecting a different model runs the
  load protocol: a new run for that model is pending with a fresh token, the hook is
  loading with no error, and the handle that was attached is detached and destroyed.
\<close>

theorem selection_reloads_only_on_change:
  "(nm = selectedModel s \<longrightarrow> step (SetSelectedModel nm) s = s)
   \<and> (nm' \<noteq> selectedModel (exec es) \<and> mounted (exec es) \<and> appReady (exec es)
        \<and> pixiAppRef (exec es) \<longrightarrow>
       find_run (next_token (exec es)) (step (SetSelectedModel nm') (exec es)) =
          Some \<lparr>token = next_token (exec es), run_model = nm', phase = AwaitModule,
                aborted = False\<rparr>
       \<and> selectedModel (step (SetSelectedModel nm') (exec es)) = nm'
       \<and> isLoading (step (SetSelectedModel nm') (exec es))
       \<and> error (step (SetSelectedModel nm') (exec es)) = None
       \<and> live2dModelRef (step (SetSelectedModel nm') (exec es)) = None
       \<and> attached (step (SetSelectedModel nm') (exec es)) = []
       \<and> destroyed (step (SetSelectedModel nm') (exec es)) =
           destroyed (exec es) @ attached (exec es))"
proof -
  have a: "nm = selectedModel s \<longrightarrow> step (SetSelectedModel nm) s = s"
    by (simp add: setSelectedModel_def)
  let ?c = "(exec es)\<lparr>selectedModel := nm'\<rparr>"
  have i: "inv ?c" using inv_exec by (rule inv_set_selectedModel)
  have att: "attached ?c = attached (exec es)" by (simp add: attached_def)
  have b: "nm' \<noteq> selectedModel (exec es) \<Longrightarrow> mounted (exec es) \<Longrightarrow> appReady (exec es)
        \<Longrightarrow> pixiAppRef (exec es) \<Longrightarrow> step (SetSelectedModel nm') (exec es) = load_effect ?c"
    by (simp add: setSelectedModel_def)
  show ?thesis
    using a b load_effect_starts_run [OF i] att by auto
qed

theorem selection_reloads_only_on_change_witness:
  "step (SetSelectedModel ''Haru'') (exec settled_trace) = exec settled_trace
   \<and> find_run 1 (step (SetSelectedModel ''Mao'') (exec settled_trace)) =
          Some \<lparr>token = 1, run_model = ''Mao'', phase = AwaitModule, aborted = False\<rparr>
   \<and> isLoading (step (SetSelectedModel ''Mao'') (exec settled_trace))
   \<and> live2dModelRef (step (SetSelectedModel ''Mao'') (exec settled_trace)) = None
   \<and> attached (step (SetSelectedModel ''Mao'') (exec settled_trace)) = []
   \<and> destroyed (step (SetSelectedModel ''Mao'') (exec settled_trace)) = [1]"
proof -
  have h: "selectedModel (exec settled_trace) = ''Haru''" "mounted (exec settled_trace)"
    "appReady (exec settled_trace)" "pixiAppRef (exec settled_trace)"
    "next_token (exec settled_trace) = 1" "destroyed (exec settled_trace) = []"
    "attached (exec settled_trace) = [1]"
    by (simp_all add: settled_trace_def run_defs example_handle_def)
  show ?thesis
    using selection_reloads_only_on_change
      [of "''Haru''" "exec settled_trace" "''Mao''" settled_trace] h
    by simp
qed

text \<open>
  The selection of another model aborts the signal of every run that was pending: only
  the run it starts has a signal that is not aborted.
\<close>

lemma runs_load_effect:
  "r \<in> set (runs (load_effect c)) \<Longrightarrow> token r \<noteq> next_token c \<Longrightarrow>
     r \<in> set (runs (load_cleanup c))"
  by (auto simp: load_effect_def Let_def loadLive2DModel_def split: if_splits)

lemma selection_change_aborts_pending:
  assumes "mounted (exec es)" "nm \<noteq> selectedModel (exec es)"
    "r \<in> set (runs (step (SetSelectedModel nm) (exec es)))" "token r \<noteq> next_token (exec es)"
  shows "aborted r"
proof -
  let ?c = "(exec es)\<lparr>selectedModel := nm\<rparr>"
  have i: "inv ?c" using inv_exec by (rule inv_set_selectedModel)
  have "step (SetSelectedModel nm) (exec es) = load_effect ?c"
    using assms(1,2) by (simp add: setSelectedModel_def)
  then have "r \<in> set (runs (load_cleanup ?c))"
    using assms(3,4) runs_load_effect [of r ?c] by simp
  then show ?thesis
    using load_cleanup_all_aborted [OF i] by blast
qed

section \<open>Failed loads\<close>


lemma settings_of_scale_and_center [simp]:
  "settings_of (scale_and_center app m) = settings_of m"
  by (simp add: settings_of_def scale_defs)








section \<open>The extracted lists\<close>


lemma length_group_entries [simp]: "length (group_entries g) = length (snd g)"
  by (simp add: group_entries_def)










section \<open>Pointer moves\<close>





end
